theory Spec2Isabelle
  imports Main "HOL-Library.Word"
begin

unbundle bit_operations_syntax

section \<open>The PCM playback engine of nap.ino\<close>

text \<open>
  The sketch plays unsigned 8-bit PCM samples read from a file on pin 10 of an Arduino
  Mega 2560. Timer 2 produces the PWM carrier, its compare register OCR2A holds the duty;
  Timer 1 raises the per-sample interrupt \<open>TIMER1_COMPA_vect\<close>. The embedding keeps the
  global variables and the hardware registers the four functions \<open>nextByte\<close>,
  \<open>stopPlayback\<close>, the interrupt handler and \<open>startPlayback\<close> read and write in one
  record, and turns each function into a function on that record.
\<close>

subsection \<open>Data\<close>

type_synonym u8 = "8 word"
type_synonym u16 = "16 word"

datatype pin_level = LOW | HIGH
datatype pin_mode = INPUT | OUTPUT

text \<open>
  \<open>myFile\<close> is the byte source: the bytes of the open file that have not been read yet, so
  \<open>myFile.available()\<close> is true exactly when the list is not empty and \<open>myFile.read()\<close>
  takes its head. \<open>dataCount\<close> is an \<open>int\<close>, 16 bits wide on the AVR; the model lets
  it wrap around, and nothing below depends on it. \<open>SREG_I\<close> is the global interrupt
  flag that \<open>cli()\<close> clears and \<open>sei()\<close> sets.

  A value of type \<open>u8 option\<close> is a byte that may be indeterminate: \<open>None\<close> stands for
  the value of a call of \<open>nextByte\<close> that reached the closing brace of the function
  without a \<open>return\<close> statement. The model lets the program go on with that
  indeterminate byte, so the duty register OCR2A has the same type.

  \<open>OCR2A_writes\<close> is not a variable of the program: it records, oldest first, every value
  assigned to \<open>_OCR_\<close> (which is OCR2A, since \<open>speakerPin\<close> is 10).
\<close>

record state =
  myFile :: "u8 list"
  playing :: bool
  lastSample :: u8
  dataCount :: u16
  ASSR :: u8
  TCCR1A :: u8
  TCCR1B :: u8
  TCCR2A :: u8
  TCCR2B :: u8
  TIMSK1 :: u8
  OCR1A :: u16
  OCR2A :: "u8 option"
  SREG_I :: bool
  pinModes :: "nat \<Rightarrow> pin_mode"
  pinLevels :: "nat \<Rightarrow> pin_level"
  OCR2A_writes :: "u8 option list"

subsection \<open>Constants\<close>

definition speakerPin :: nat where "speakerPin = 10"
definition SAMPLE_RATE :: nat where "SAMPLE_RATE = 8000"

text \<open>
  Bit positions of the ATmega2560 registers, as \<open>avr/io.h\<close> gives them, and the macro
  \<open>_BV(bit) = (1 << (bit))\<close>. With \<open>speakerPin\<close> 10 the macros \<open>COMON1\<close>, \<open>COMON0\<close>,
  \<open>COMOFF1\<close>, \<open>COMOFF0\<close> are \<open>COM2A1\<close>, \<open>COM2A0\<close>, \<open>COM2B1\<close>, \<open>COM2B0\<close>.
\<close>

definition BV :: "nat \<Rightarrow> u8" where "BV b = push_bit b 1"

definition CS10 :: nat where "CS10 = 0"
definition CS11 :: nat where "CS11 = 1"
definition CS12 :: nat where "CS12 = 2"
definition WGM12 :: nat where "WGM12 = 3"
definition WGM13 :: nat where "WGM13 = 4"
definition WGM10 :: nat where "WGM10 = 0"
definition WGM11 :: nat where "WGM11 = 1"
definition WGM20 :: nat where "WGM20 = 0"
definition WGM21 :: nat where "WGM21 = 1"
definition WGM22 :: nat where "WGM22 = 3"
definition COMON1 :: nat where "COMON1 = 7"
definition COMON0 :: nat where "COMON0 = 6"
definition COMOFF1 :: nat where "COMOFF1 = 5"
definition COMOFF0 :: nat where "COMOFF0 = 4"
definition OCIE1A :: nat where "OCIE1A = 1"
definition AS2 :: nat where "AS2 = 5"
definition EXCLK :: nat where "EXCLK = 6"

subsection \<open>The functions\<close>

text \<open>
  \<open>nextByte\<close>: when the file has a byte, it is read into \<open>lastSample\<close>, counted and
  returned. Otherwise \<open>playing\<close> is cleared and the function ends without a \<open>return\<close>.
\<close>

definition nextByte :: "state \<Rightarrow> u8 option \<times> state" where
  "nextByte s =
     (case myFile s of
        b # rest \<Rightarrow>
          (Some b, s\<lparr>myFile := rest, lastSample := b, dataCount := dataCount s + 1\<rparr>)
      | [] \<Rightarrow> (None, s\<lparr>playing := False\<rparr>))"

text \<open>An assignment \<open>_OCR_ = v\<close>.\<close>

definition set_OCR :: "u8 option \<Rightarrow> state \<Rightarrow> state" where
  "set_OCR v s = s\<lparr>OCR2A := v, OCR2A_writes := OCR2A_writes s @ [v]\<rparr>"

definition digitalWrite :: "nat \<Rightarrow> pin_level \<Rightarrow> state \<Rightarrow> state" where
  "digitalWrite pin v s = s\<lparr>pinLevels := (pinLevels s)(pin := v)\<rparr>"

definition pinMode :: "nat \<Rightarrow> pin_mode \<Rightarrow> state \<Rightarrow> state" where
  "pinMode pin m s = s\<lparr>pinModes := (pinModes s)(pin := m)\<rparr>"

definition stopPlayback :: "state \<Rightarrow> state" where
  "stopPlayback s =
     (let s = s\<lparr>TIMSK1 := TIMSK1 s AND NOT (BV OCIE1A)\<rparr>;
          s = s\<lparr>TCCR1B := TCCR1B s AND NOT (BV CS10)\<rparr>;
          s = s\<lparr>TCCR2B := TCCR2B s AND NOT (BV CS10)\<rparr>
      in digitalWrite speakerPin LOW s)"

text \<open>
  The handler of \<open>TIMER1_COMPA_vect\<close>. \<open>_OCR_ = lastSample--\<close> assigns the value
  \<open>lastSample\<close> had before the decrement.
\<close>

definition ISR :: "state \<Rightarrow> state" where
  "ISR s =
     (if playing s then (case nextByte s of (v, s') \<Rightarrow> set_OCR v s')
      else if lastSample s > 0 then
        set_OCR (Some (lastSample s)) (s\<lparr>lastSample := lastSample s - 1\<rparr>)
      else stopPlayback s)"

text \<open>
  \<open>startPlayback\<close>, statement by statement. \<open>F_CPU\<close> comes from the build of the board
  and is a parameter here; the quotient is stored in the 16-bit register OCR1A.
\<close>

definition startPlayback :: "nat \<Rightarrow> state \<Rightarrow> state" where
  "startPlayback F_CPU s =
     (let s = pinMode speakerPin OUTPUT s;
          s = s\<lparr>ASSR := ASSR s AND NOT (BV EXCLK OR BV AS2)\<rparr>;
          s = s\<lparr>TCCR2A := TCCR2A s OR (BV WGM21 OR BV WGM20)\<rparr>;
          s = s\<lparr>TCCR2B := TCCR2B s AND NOT (BV WGM22)\<rparr>;
          s = s\<lparr>TCCR2A := (TCCR2A s OR BV COMON1) AND NOT (BV COMON0)\<rparr>;
          s = s\<lparr>TCCR2A := TCCR2A s AND NOT (BV COMOFF1 OR BV COMOFF0)\<rparr>;
          s = s\<lparr>TCCR2B := (TCCR2B s AND NOT (BV CS12 OR BV CS11)) OR BV CS10\<rparr>;
          s = (case nextByte s of (v, s') \<Rightarrow> set_OCR v s');
          s = s\<lparr>SREG_I := False\<rparr>;
          s = s\<lparr>TCCR1B := (TCCR1B s AND NOT (BV WGM13)) OR BV WGM12\<rparr>;
          s = s\<lparr>TCCR1A := TCCR1A s AND NOT (BV WGM11 OR BV WGM10)\<rparr>;
          s = s\<lparr>TCCR1B := (TCCR1B s AND NOT (BV CS12 OR BV CS11)) OR BV CS10\<rparr>;
          s = s\<lparr>OCR1A := word_of_nat (F_CPU div SAMPLE_RATE)\<rparr>;
          s = s\<lparr>TIMSK1 := TIMSK1 s OR BV OCIE1A\<rparr>;
          s = s\<lparr>playing := True\<rparr>
      in s\<lparr>SREG_I := True\<rparr>)"

subsection \<open>Runs\<close>

text \<open>The state after \<open>n\<close> sample clock ticks, each handled by \<open>ISR\<close>.\<close>

primrec ticks :: "nat \<Rightarrow> state \<Rightarrow> state" where
  "ticks 0 s = s"
| "ticks (Suc n) s = ISR (ticks n s)"

text \<open>
  A concrete machine for examples: the globals as C++ zero-initialises them, every
  register 0, the file holding the given samples.
\<close>

definition reset_state :: "u8 list \<Rightarrow> state" where
  "reset_state xs =
     \<lparr>myFile = xs, playing = False, lastSample = 0, dataCount = 0, ASSR = 0, TCCR1A = 0,
      TCCR1B = 0, TCCR2A = 0, TCCR2B = 0, TIMSK1 = 0, OCR1A = 0, OCR2A = Some 0,
      SREG_I = True, pinModes = (\<lambda>_. INPUT), pinLevels = (\<lambda>_. LOW), OCR2A_writes = []\<rparr>"

text \<open>
  A second machine, as the sketch can find it when \<open>setup\<close> runs: the header comment of
  the sketch says that it takes Timer 1 and Timer 2 over from the PWM of \<open>analogWrite\<close>,
  and for that PWM both timers count (prescaler 64: \<open>CS11\<close> and \<open>CS10\<close> in \<open>TCCR1B\<close>,
  \<open>CS22\<close>, which is bit 2, in \<open>TCCR2B\<close>) with no interrupt enabled. The globals are as
  C++ zero-initialises them. \<open>startPlayback\<close> itself allows for such contents: it clears
  the clock select bits 2 and 1 of both timers before it sets bit 0.
\<close>

definition pwm_ready_state :: "u8 list \<Rightarrow> state" where
  "pwm_ready_state xs =
     \<lparr>myFile = xs, playing = False, lastSample = 0, dataCount = 0, ASSR = 0, TCCR1A = 1,
      TCCR1B = 3, TCCR2A = 1, TCCR2B = 4, TIMSK1 = 0, OCR1A = 0, OCR2A = Some 0,
      SREG_I = True, pinModes = (\<lambda>_. INPUT), pinLevels = (\<lambda>_. LOW), OCR2A_writes = []\<rparr>"

subsection \<open>The playback state machine\<close>

text \<open>
  The program has no variable for the state of the playback. The handler's three branches
  are commented \<open>Playing\<close>, \<open>Fade out\<close> and \<open>Stopped\<close>: a tick is handled as Playing when
  \<open>playing\<close> is set, as fade-out when it is clear and \<open>lastSample\<close> is positive, and
  otherwise by \<open>stopPlayback\<close>. \<open>stopped_before n s\<close> says that one of the first \<open>n\<close>
  ticks of the run from \<open>s\<close> was handled by \<open>stopPlayback\<close>.

  For a run that begins with the machine \<open>startPlayback\<close> has returned, the state after
  \<open>n\<close> ticks is then Playing while \<open>playing\<close> is set, Idle once a tick has
  called \<open>stopPlayback\<close>, and FadingOut in between. A machine with \<open>playing\<close> clear and
  \<open>lastSample\<close> 0 whose next tick will call \<open>stopPlayback\<close> is still FadingOut: the tick
  makes the transition to Idle.
\<close>

datatype PlaybackState = Idle | Playing | FadingOut

primrec stopped_before :: "nat \<Rightarrow> state \<Rightarrow> bool" where
  "stopped_before 0 s = False"
| "stopped_before (Suc n) s =
     (stopped_before n s \<or> (\<not> playing (ticks n s) \<and> lastSample (ticks n s) = 0))"

definition PlaybackState_after :: "nat \<Rightarrow> state \<Rightarrow> PlaybackState" where
  "PlaybackState_after n s =
     (if playing (ticks n s) then Playing
      else if stopped_before n s then Idle
      else FadingOut)"

text \<open>
  The life of the engine has one more moment, the one before \<open>startPlayback\<close> is called:
  \<open>setup\<close> has opened the file and nothing is played yet, so the playback state is Idle,
  and the machine is as \<open>setup\<close> found it, since \<open>setup\<close> writes no timer register before
  it calls \<open>startPlayback\<close>. \<open>machine_at f s m\<close> is the machine at the moment \<open>m\<close> when
  \<open>s\<close> is the machine before \<open>startPlayback\<close> and \<open>f\<close> is \<open>F_CPU\<close>, and
  \<open>PlaybackState_at f s m\<close> is the playback state at that moment.
\<close>

datatype moment = Before_start | After_start nat

primrec machine_at :: "nat \<Rightarrow> state \<Rightarrow> moment \<Rightarrow> state" where
  "machine_at f s Before_start = s"
| "machine_at f s (After_start n) = ticks n (startPlayback f s)"

primrec PlaybackState_at :: "nat \<Rightarrow> state \<Rightarrow> moment \<Rightarrow> PlaybackState" where
  "PlaybackState_at f s Before_start = Idle"
| "PlaybackState_at f s (After_start n) = PlaybackState_after n (startPlayback f s)"

text \<open>
  Among the first \<open>n\<close> ticks of the run from \<open>s\<close>: how many were handled in the Playing
  branch, and how many of those found a byte in the file (fetched and wrote a sample).
\<close>

primrec playing_ticks :: "nat \<Rightarrow> state \<Rightarrow> nat" where
  "playing_ticks 0 s = 0"
| "playing_ticks (Suc n) s = playing_ticks n s + (if playing (ticks n s) then 1 else 0)"

primrec fetch_ticks :: "nat \<Rightarrow> state \<Rightarrow> nat" where
  "fetch_ticks 0 s = 0"
| "fetch_ticks (Suc n) s =
     fetch_ticks n s + (if playing (ticks n s) \<and> myFile (ticks n s) \<noteq> [] then 1 else 0)"

subsection \<open>The two clocks\<close>

text \<open>
  A timer of the ATmega2560 counts when one of the clock select bits 2..0 of its control
  register B is set, and stands still when all three are clear. The sample clock is
  Timer 1 with its compare match A interrupt (bit \<open>OCIE1A\<close> of \<open>TIMSK1\<close>); the PWM carrier
  is Timer 2. Enabled and disabled are both stated in full, so a timer that counts with
  its interrupt masked is neither.
\<close>

definition clock_selected :: "u8 \<Rightarrow> bool" where
  "clock_selected r = (bit r CS12 \<or> bit r CS11 \<or> bit r CS10)"

definition sample_clock_enabled :: "state \<Rightarrow> bool" where
  "sample_clock_enabled s = (bit (TIMSK1 s) OCIE1A \<and> clock_selected (TCCR1B s))"

definition sample_clock_disabled :: "state \<Rightarrow> bool" where
  "sample_clock_disabled s = (\<not> bit (TIMSK1 s) OCIE1A \<and> \<not> clock_selected (TCCR1B s))"

definition pwm_timer_enabled :: "state \<Rightarrow> bool" where
  "pwm_timer_enabled s = clock_selected (TCCR2B s)"

definition pwm_timer_disabled :: "state \<Rightarrow> bool" where
  "pwm_timer_disabled s = (\<not> clock_selected (TCCR2B s))"

text \<open>
  \<open>startPlayback\<close> clears the clock select bits 2 and 1 of both timers and sets bit 0;
  \<open>stopPlayback\<close> clears bit 0 only. \<open>cs_high_clear\<close> says that bits 2 and 1 are clear.
\<close>

definition cs_high_clear :: "state \<Rightarrow> bool" where
  "cs_high_clear s =
     (\<not> bit (TCCR1B s) CS11 \<and> \<not> bit (TCCR1B s) CS12 \<and>
      \<not> bit (TCCR2B s) CS11 \<and> \<not> bit (TCCR2B s) CS12)"

section \<open>Properties\<close>

lemmas bit_names =
  CS10_def CS11_def CS12_def WGM12_def WGM13_def WGM10_def WGM11_def WGM20_def WGM21_def
  WGM22_def COMON1_def COMON0_def COMOFF1_def COMOFF0_def OCIE1A_def AS2_def EXCLK_def

subsection \<open>One tick, by branch\<close>

lemma ISR_fetch:
  "playing s \<Longrightarrow> myFile s = b # rest \<Longrightarrow>
   ISR s = s\<lparr>myFile := rest, lastSample := b, dataCount := dataCount s + 1,
              OCR2A := Some b, OCR2A_writes := OCR2A_writes s @ [Some b]\<rparr>"
  by (simp add: ISR_def nextByte_def set_OCR_def)

lemma ISR_exhausted:
  "playing s \<Longrightarrow> myFile s = [] \<Longrightarrow>
   ISR s = s\<lparr>playing := False, OCR2A := None, OCR2A_writes := OCR2A_writes s @ [None]\<rparr>"
  by (simp add: ISR_def nextByte_def set_OCR_def)

lemma ISR_fade:
  "\<not> playing s \<Longrightarrow> lastSample s \<noteq> 0 \<Longrightarrow>
   ISR s = s\<lparr>lastSample := lastSample s - 1, OCR2A := Some (lastSample s),
              OCR2A_writes := OCR2A_writes s @ [Some (lastSample s)]\<rparr>"
  by (simp add: ISR_def set_OCR_def word_greater_zero_iff)

lemma ISR_stop: "\<not> playing s \<Longrightarrow> lastSample s = 0 \<Longrightarrow> ISR s = stopPlayback s"
  by (simp add: ISR_def)

lemma stopPlayback_twice: "stopPlayback (stopPlayback s) = stopPlayback s"
  by (simp add: stopPlayback_def digitalWrite_def Let_def)

lemma stopPlayback_globals [simp]:
  "playing (stopPlayback s) = playing s"
  "lastSample (stopPlayback s) = lastSample s"
  "myFile (stopPlayback s) = myFile s"
  "OCR2A (stopPlayback s) = OCR2A s"
  "OCR2A_writes (stopPlayback s) = OCR2A_writes s"
  by (simp_all add: stopPlayback_def digitalWrite_def Let_def)

subsection \<open>Runs of ticks\<close>

lemma ticks_add: "ticks (a + b) s = ticks b (ticks a s)"
  by (induction b) simp_all

lemma ticks_numeral: "ticks (numeral k) s = ISR (ticks (pred_numeral k) s)"
  by (simp add: numeral_eq_Suc)

text \<open>While the file has bytes, each tick takes one.\<close>

lemma ticks_playing:
  "playing s \<Longrightarrow> k \<le> length (myFile s) \<Longrightarrow>
   ticks k s = s\<lparr>myFile := drop k (myFile s),
      lastSample := (if k = 0 then lastSample s else myFile s ! (k - 1)),
      dataCount := dataCount s + word_of_nat k,
      OCR2A := (if k = 0 then OCR2A s else Some (myFile s ! (k - 1))),
      OCR2A_writes := OCR2A_writes s @ map Some (take k (myFile s))\<rparr>"
proof (induction k)
  case 0
  then show ?case by simp
next
  case (Suc k)
  then have k: "k < length (myFile s)" by simp
  have d: "drop k (myFile s) = myFile s ! k # drop (Suc k) (myFile s)"
    using k by (simp add: Cons_nth_drop_Suc)
  have t: "take (Suc k) (myFile s) = take k (myFile s) @ [myFile s ! k]"
    using k by (simp add: take_Suc_conv_app_nth)
  have "ticks (Suc k) s = ISR (s\<lparr>myFile := drop k (myFile s),
      lastSample := (if k = 0 then lastSample s else myFile s ! (k - 1)),
      dataCount := dataCount s + word_of_nat k,
      OCR2A := (if k = 0 then OCR2A s else Some (myFile s ! (k - 1))),
      OCR2A_writes := OCR2A_writes s @ map Some (take k (myFile s))\<rparr>)"
    using Suc by simp
  also have "\<dots> = s\<lparr>myFile := drop (Suc k) (myFile s),
      lastSample := myFile s ! k,
      dataCount := dataCount s + word_of_nat (Suc k),
      OCR2A := Some (myFile s ! k),
      OCR2A_writes := OCR2A_writes s @ map Some (take (Suc k) (myFile s))\<rparr>"
    using Suc.prems(1)
    by (subst ISR_fetch [where b = "myFile s ! k" and rest = "drop (Suc k) (myFile s)"])
      (simp_all add: d t add.assoc add.commute)
  finally show ?case by simp
qed

text \<open>The decrement of the fade-out never wraps: it is guarded by \<open>lastSample > 0\<close>.\<close>

lemma word_sub_of_nat_nonzero:
  fixes v :: u8
  assumes "k < unat v"
  shows "v - word_of_nat k \<noteq> 0"
proof
  assume "v - word_of_nat k = 0"
  then have "v = word_of_nat k" by simp
  then have "unat v = k mod 2 ^ LENGTH(8)" by (simp add: unat_of_nat)
  then have "unat v \<le> k" by simp
  with assms show False by simp
qed

lemma ticks_fade:
  "\<not> playing s \<Longrightarrow> k \<le> unat (lastSample s) \<Longrightarrow>
   ticks k s = s\<lparr>lastSample := lastSample s - word_of_nat k,
      OCR2A := (if k = 0 then OCR2A s else Some (lastSample s - word_of_nat (k - 1))),
      OCR2A_writes :=
        OCR2A_writes s @ map (\<lambda>i. Some (lastSample s - word_of_nat i)) [0..<k]\<rparr>"
proof (induction k)
  case 0
  then show ?case by simp
next
  case (Suc k)
  then have k: "k < unat (lastSample s)" by simp
  have nz: "lastSample s - word_of_nat k \<noteq> 0"
    using k by (rule word_sub_of_nat_nonzero)
  have "ticks (Suc k) s = ISR (s\<lparr>lastSample := lastSample s - word_of_nat k,
      OCR2A := (if k = 0 then OCR2A s else Some (lastSample s - word_of_nat (k - 1))),
      OCR2A_writes :=
        OCR2A_writes s @ map (\<lambda>i. Some (lastSample s - word_of_nat i)) [0..<k]\<rparr>)"
    using Suc by simp
  also have "\<dots> = s\<lparr>lastSample := lastSample s - word_of_nat (Suc k),
      OCR2A := Some (lastSample s - word_of_nat k),
      OCR2A_writes :=
        OCR2A_writes s @ map (\<lambda>i. Some (lastSample s - word_of_nat i)) [0..<Suc k]\<rparr>"
    using Suc.prems(1) nz by (subst ISR_fade) simp_all
  finally show ?case by simp
qed

text \<open>Once \<open>playing\<close> is clear and \<open>lastSample\<close> is 0, every tick is \<open>stopPlayback\<close>.\<close>

lemma ticks_stopped:
  "\<not> playing s \<Longrightarrow> lastSample s = 0 \<Longrightarrow> ticks (Suc k) s = stopPlayback s"
  by (induction k) (simp_all add: ISR_stop stopPlayback_twice)

lemma not_playing_ISR: "\<not> playing s \<Longrightarrow> \<not> playing (ISR s)"
  by (simp add: ISR_def set_OCR_def)

lemma not_playing_ticks: "\<not> playing s \<Longrightarrow> \<not> playing (ticks k s)"
  by (induction k) (simp_all add: not_playing_ISR)

lemma lastSample_fade_run:
  assumes "\<not> playing s"
  shows "lastSample (ticks k s) = lastSample s - word_of_nat (min k (unat (lastSample s)))"
proof (cases "k \<le> unat (lastSample s)")
  case True
  then show ?thesis using ticks_fade [OF assms True] by (simp add: min_def)
next
  case False
  let ?n = "unat (lastSample s)"
  let ?t = "ticks ?n s"
  have t: "\<not> playing ?t" "lastSample ?t = 0"
    using ticks_fade [OF assms, of ?n] assms by simp_all
  from False obtain j where k: "k = ?n + Suc j"
    by (metis add_Suc_right less_imp_Suc_add not_le)
  have "ticks k s = stopPlayback ?t"
    unfolding k ticks_add using t by (rule ticks_stopped)
  then show ?thesis using t False by (simp add: min_def)
qed

lemma word_pred_le:
  fixes x :: u8
  assumes "x \<noteq> 0"
  shows "x - 1 \<le> x"
proof -
  have "0 < unat x" using assms by (simp add: unat_gt_0)
  then have "1 \<le> x" by (simp add: word_le_nat_alt)
  then show ?thesis by (rule word_sub_le)
qed

lemma lastSample_ISR_le: "\<not> playing s \<Longrightarrow> lastSample (ISR s) \<le> lastSample s"
  by (cases "lastSample s = 0") (simp_all add: ISR_stop ISR_fade word_pred_le)

subsection \<open>What startPlayback and stopPlayback leave behind\<close>

lemma startPlayback_globals:
  "playing (startPlayback f s)"
  "myFile (startPlayback f s) = tl (myFile s)"
  "lastSample (startPlayback f s) = (case myFile s of [] \<Rightarrow> lastSample s | b # _ \<Rightarrow> b)"
  "OCR2A (startPlayback f s) = (case myFile s of [] \<Rightarrow> None | b # _ \<Rightarrow> Some b)"
  "OCR2A_writes (startPlayback f s) =
     OCR2A_writes s @ [case myFile s of [] \<Rightarrow> None | b # _ \<Rightarrow> Some b]"
  "OCR1A (startPlayback f s) = word_of_nat (f div SAMPLE_RATE)"
  by (simp_all add: startPlayback_def pinMode_def nextByte_def set_OCR_def Let_def
      split: list.splits)

lemma startPlayback_regs:
  "bit (TIMSK1 (startPlayback f s)) OCIE1A"
  "bit (TCCR1B (startPlayback f s)) CS10"
  "bit (TCCR2B (startPlayback f s)) CS10"
  "cs_high_clear (startPlayback f s)"
  by (simp_all add: startPlayback_def pinMode_def nextByte_def set_OCR_def Let_def
      cs_high_clear_def BV_def bit_names bit_simps split: list.splits)

lemma stopPlayback_regs:
  "\<not> bit (TIMSK1 (stopPlayback s)) OCIE1A"
  "\<not> bit (TCCR1B (stopPlayback s)) CS10"
  "\<not> bit (TCCR2B (stopPlayback s)) CS10"
  "pinLevels (stopPlayback s) speakerPin = LOW"
  "cs_high_clear s \<Longrightarrow> cs_high_clear (stopPlayback s)"
  by (simp_all add: stopPlayback_def digitalWrite_def Let_def cs_high_clear_def BV_def
      bit_names bit_simps)

lemma ISR_keeps_regs:
  "playing s \<or> lastSample s \<noteq> 0 \<Longrightarrow>
   TIMSK1 (ISR s) = TIMSK1 s \<and> TCCR1B (ISR s) = TCCR1B s \<and> TCCR2B (ISR s) = TCCR2B s"
  by (auto simp: ISR_def nextByte_def set_OCR_def word_greater_zero_iff split: list.splits)

lemma cs_high_clear_ISR: "cs_high_clear s \<Longrightarrow> cs_high_clear (ISR s)"
proof (cases "playing s \<or> lastSample s \<noteq> 0")
  case True
  assume "cs_high_clear s"
  then show ?thesis using ISR_keeps_regs [OF True] by (simp add: cs_high_clear_def)
next
  case False
  assume "cs_high_clear s"
  then show ?thesis using False by (simp add: ISR_stop stopPlayback_regs)
qed

lemma cs_high_clear_ticks: "cs_high_clear s \<Longrightarrow> cs_high_clear (ticks k s)"
  by (induction k) (simp_all add: cs_high_clear_ISR)

lemma stopped_before_inv:
  "stopped_before n s \<Longrightarrow>
   \<not> playing (ticks n s) \<and> lastSample (ticks n s) = 0 \<and>
   stopPlayback (ticks n s) = ticks n s"
proof (induction n)
  case 0
  then show ?case by simp
next
  case (Suc n)
  then have "\<not> playing (ticks n s) \<and> lastSample (ticks n s) = 0" by auto
  then have "ticks (Suc n) s = stopPlayback (ticks n s)"
    and "\<not> playing (ticks n s)" and "lastSample (ticks n s) = 0"
    by (simp_all add: ISR_stop)
  then show ?case by (simp add: stopPlayback_twice)
qed

lemma not_stopped_regs:
  "\<not> stopped_before n s \<Longrightarrow>
   TIMSK1 (ticks n s) = TIMSK1 s \<and> TCCR1B (ticks n s) = TCCR1B s \<and>
   TCCR2B (ticks n s) = TCCR2B s"
proof (induction n)
  case 0
  then show ?case by simp
next
  case (Suc n)
  then have a: "\<not> stopped_before n s"
    and b: "playing (ticks n s) \<or> lastSample (ticks n s) \<noteq> 0" by auto
  show ?case using Suc.IH [OF a] ISR_keeps_regs [OF b] by simp
qed

text \<open>The sample the fade-out will start from is the same before and after \<open>startPlayback\<close>.\<close>

lemma startPlayback_final:
  "(if myFile (startPlayback f s) = [] then lastSample (startPlayback f s)
    else last (myFile (startPlayback f s))) =
   (if myFile s = [] then lastSample s else last (myFile s))"
  by (cases "myFile s") (simp_all add: startPlayback_globals)

subsection \<open>The whole run from a playing machine\<close>

lemma stopped_before_iff:
  "stopped_before n s \<longleftrightarrow> (\<exists>j<n. \<not> playing (ticks j s) \<and> lastSample (ticks j s) = 0)"
  by (induction n) (simp_all add: Ex_less_Suc disj_commute)

lemma ticks_exhausted:
  assumes "playing s"
  shows "ticks (Suc (length (myFile s))) s =
     s\<lparr>myFile := [], playing := False,
       lastSample := (if myFile s = [] then lastSample s else last (myFile s)),
       dataCount := dataCount s + word_of_nat (length (myFile s)),
       OCR2A := None,
       OCR2A_writes := OCR2A_writes s @ map Some (myFile s) @ [None]\<rparr>"
proof -
  let ?n = "length (myFile s)"
  have l: "myFile s \<noteq> [] \<Longrightarrow> myFile s ! (?n - 1) = last (myFile s)"
    by (simp add: last_conv_nth)
  have "ticks (Suc ?n) s = ISR (ticks ?n s)" by simp
  also have "\<dots> = ISR (s\<lparr>myFile := [],
      lastSample := (if myFile s = [] then lastSample s else last (myFile s)),
      dataCount := dataCount s + word_of_nat ?n,
      OCR2A := (if ?n = 0 then OCR2A s else Some (myFile s ! (?n - 1))),
      OCR2A_writes := OCR2A_writes s @ map Some (myFile s)\<rparr>)"
    using l by (subst ticks_playing [OF assms]) auto
  also have "\<dots> = s\<lparr>myFile := [], playing := False,
       lastSample := (if myFile s = [] then lastSample s else last (myFile s)),
       dataCount := dataCount s + word_of_nat ?n,
       OCR2A := None,
       OCR2A_writes := OCR2A_writes s @ map Some (myFile s) @ [None]\<rparr>"
    using assms by (subst ISR_exhausted) simp_all
  finally show ?thesis .
qed

lemma playing_ticks_iff:
  assumes "playing s"
  shows "playing (ticks k s) \<longleftrightarrow> k \<le> length (myFile s)"
proof (cases "k \<le> length (myFile s)")
  case True
  then show ?thesis using ticks_playing [OF assms True] assms by simp
next
  case False
  then obtain j where k: "k = Suc (length (myFile s)) + j"
    by (metis add_Suc less_imp_Suc_add not_le)
  have "\<not> playing (ticks (Suc (length (myFile s))) s)"
    by (subst ticks_exhausted [OF assms]) simp
  then have "\<not> playing (ticks k s)"
    unfolding k ticks_add by (rule not_playing_ticks)
  with False show ?thesis by simp
qed

lemma word_sub_unat_eq_0_iff:
  fixes w :: u8
  shows "w - word_of_nat (min i (unat w)) = 0 \<longleftrightarrow> unat w \<le> i"
proof (cases "unat w \<le> i")
  case True
  then show ?thesis by (simp add: min_def)
next
  case False
  then have "i < unat w" by simp
  from word_sub_of_nat_nonzero [OF this] False show ?thesis by (simp add: min_def)
qed

text \<open>
  The sample the fade-out starts from is the last byte of the file, or what \<open>lastSample\<close>
  held when the file had no byte left. The third branch of the handler is taken from the
  tick after \<open>lastSample\<close> has come down to 0.
\<close>

lemma stop_cond_iff:
  assumes "playing s"
  shows "(\<not> playing (ticks j s) \<and> lastSample (ticks j s) = 0) \<longleftrightarrow>
     Suc (length (myFile s))
       + unat (if myFile s = [] then lastSample s else last (myFile s)) \<le> j"
proof (cases "j \<le> length (myFile s)")
  case True
  then show ?thesis using playing_ticks_iff [OF assms, of j] by simp
next
  case False
  let ?e = "ticks (Suc (length (myFile s))) s"
  let ?w = "if myFile s = [] then lastSample s else last (myFile s)"
  from False obtain i where j: "j = Suc (length (myFile s)) + i"
    by (metis add_Suc less_imp_Suc_add not_le)
  have e: "\<not> playing ?e" "lastSample ?e = ?w"
    by (subst ticks_exhausted [OF assms], simp)+
  have "lastSample (ticks j s) = ?w - word_of_nat (min i (unat ?w))"
    unfolding j ticks_add using lastSample_fade_run [OF e(1), of i] e(2) by simp
  moreover have "\<not> playing (ticks j s)"
    unfolding j ticks_add using e(1) by (rule not_playing_ticks)
  ultimately show ?thesis
    using word_sub_unat_eq_0_iff [of ?w i] j by simp
qed

lemma stopped_before_run:
  assumes "playing s"
  shows "stopped_before k s \<longleftrightarrow>
     Suc (Suc (length (myFile s)))
       + unat (if myFile s = [] then lastSample s else last (myFile s)) \<le> k"
proof -
  let ?m = "Suc (length (myFile s))
    + unat (if myFile s = [] then lastSample s else last (myFile s))"
  have "stopped_before k s \<longleftrightarrow> (\<exists>j<k. ?m \<le> j)"
    unfolding stopped_before_iff stop_cond_iff [OF assms] ..
  also have "\<dots> \<longleftrightarrow> ?m < k"
  proof
    assume "\<exists>j<k. ?m \<le> j"
    then obtain j where "j < k" "?m \<le> j" by blast
    then show "?m < k" by simp
  next
    assume "?m < k"
    then show "\<exists>j<k. ?m \<le> j" by blast
  qed
  finally show ?thesis by (simp add: Suc_le_eq)
qed

lemma PlaybackState_run:
  assumes "playing s"
  shows "PlaybackState_after k s =
     (if k \<le> length (myFile s) then Playing
      else if k \<le> Suc (length (myFile s))
          + unat (if myFile s = [] then lastSample s else last (myFile s)) then FadingOut
      else Idle)"
  unfolding PlaybackState_after_def playing_ticks_iff [OF assms]
    stopped_before_run [OF assms]
  by auto

lemma fetch_ticks_run:
  assumes "playing s"
  shows "fetch_ticks k s = min k (length (myFile s))"
proof (induction k)
  case 0
  then show ?case by simp
next
  case (Suc k)
  have "(playing (ticks k s) \<and> myFile (ticks k s) \<noteq> []) \<longleftrightarrow> k < length (myFile s)"
  proof (cases "k \<le> length (myFile s)")
    case True
    then show ?thesis using ticks_playing [OF assms True] assms by auto
  next
    case False
    then show ?thesis using playing_ticks_iff [OF assms, of k] by simp
  qed
  with Suc show ?case by (simp add: min_def)
qed

lemma playing_ticks_run:
  assumes "playing s"
  shows "playing_ticks k s = min k (Suc (length (myFile s)))"
  by (induction k) (auto simp: playing_ticks_iff [OF assms] min_def)

subsection \<open>The example machine\<close>

lemma start_reset_Cons:
  "startPlayback f (reset_state (x # xs)) =
     \<lparr>myFile = xs, playing = True, lastSample = x, dataCount = 1, ASSR = 0, TCCR1A = 0,
      TCCR1B = 9, TCCR2A = 131, TCCR2B = 1, TIMSK1 = 2,
      OCR1A = word_of_nat (f div 8000), OCR2A = Some x,
      SREG_I = True, pinModes = (\<lambda>_. INPUT)(10 := OUTPUT), pinLevels = (\<lambda>_. LOW),
      OCR2A_writes = [Some x]\<rparr>"
  by (simp add: startPlayback_def reset_state_def pinMode_def nextByte_def set_OCR_def
      Let_def BV_def bit_names speakerPin_def SAMPLE_RATE_def)

lemma start_reset_Nil:
  "startPlayback f (reset_state []) =
     \<lparr>myFile = [], playing = True, lastSample = 0, dataCount = 0, ASSR = 0, TCCR1A = 0,
      TCCR1B = 9, TCCR2A = 131, TCCR2B = 1, TIMSK1 = 2,
      OCR1A = word_of_nat (f div 8000), OCR2A = None,
      SREG_I = True, pinModes = (\<lambda>_. INPUT)(10 := OUTPUT), pinLevels = (\<lambda>_. LOW),
      OCR2A_writes = [None]\<rparr>"
  by (simp add: startPlayback_def reset_state_def pinMode_def nextByte_def set_OCR_def
      Let_def BV_def bit_names speakerPin_def SAMPLE_RATE_def)

lemma start_pwm_ready_Cons:
  "startPlayback f (pwm_ready_state (x # xs)) =
     \<lparr>myFile = xs, playing = True, lastSample = x, dataCount = 1, ASSR = 0, TCCR1A = 0,
      TCCR1B = 9, TCCR2A = 131, TCCR2B = 1, TIMSK1 = 2,
      OCR1A = word_of_nat (f div 8000), OCR2A = Some x,
      SREG_I = True, pinModes = (\<lambda>_. INPUT)(10 := OUTPUT), pinLevels = (\<lambda>_. LOW),
      OCR2A_writes = [Some x]\<rparr>"
  by (simp add: startPlayback_def pwm_ready_state_def pinMode_def nextByte_def set_OCR_def
      Let_def BV_def bit_names speakerPin_def SAMPLE_RATE_def)

text \<open>The file holds the single sample 10: the machine after the tick that finds it empty.\<close>

lemma ten_exhausted:
  "ticks 1 (startPlayback f (reset_state [10])) =
     \<lparr>myFile = [], playing = False, lastSample = 10, dataCount = 1, ASSR = 0, TCCR1A = 0,
      TCCR1B = 9, TCCR2A = 131, TCCR2B = 1, TIMSK1 = 2,
      OCR1A = word_of_nat (f div 8000), OCR2A = None,
      SREG_I = True, pinModes = (\<lambda>_. INPUT)(10 := OUTPUT), pinLevels = (\<lambda>_. LOW),
      OCR2A_writes = [Some 10, None]\<rparr>"
  by (simp add: start_reset_Cons ISR_def nextByte_def set_OCR_def)

subsection \<open>Evaluating runs of the example machine\<close>

lemma stopped_before_numeral:
  "stopped_before (numeral k) s =
     (stopped_before (pred_numeral k) s \<or>
      (\<not> playing (ticks (pred_numeral k) s) \<and> lastSample (ticks (pred_numeral k) s) = 0))"
  by (simp add: numeral_eq_Suc)

lemma fetch_ticks_numeral:
  "fetch_ticks (numeral k) s = fetch_ticks (pred_numeral k) s +
     (if playing (ticks (pred_numeral k) s) \<and> myFile (ticks (pred_numeral k) s) \<noteq> []
      then 1 else 0)"
  by (simp add: numeral_eq_Suc)

lemma playing_ticks_numeral:
  "playing_ticks (numeral k) s = playing_ticks (pred_numeral k) s +
     (if playing (ticks (pred_numeral k) s) then 1 else 0)"
  by (simp add: numeral_eq_Suc)

lemmas run_eval =
  ticks_numeral stopped_before_numeral fetch_ticks_numeral playing_ticks_numeral
  PlaybackState_after_def ISR_def nextByte_def set_OCR_def stopPlayback_def
  digitalWrite_def Let_def BV_def bit_names speakerPin_def

section \<open>The claims\<close>

text \<open>
  C1, as the code has it. In fade-out (\<open>playing\<close> clear) a tick with \<open>lastSample > 0\<close>
  assigns the value \<open>lastSample\<close> holds to the duty register and decrements \<open>lastSample\<close>
  afterwards. From a starting value \<open>v\<close> the fade-out writes \<open>v\<close>, \<open>v - 1\<close>, ..., 1 on
  \<open>v\<close> ticks and never writes 0; the tick after them calls \<open>stopPlayback\<close>, and later
  ticks write nothing.
\<close>

theorem fade_writes_before_decrement:
  assumes "\<not> playing s"
  shows "(0 < lastSample s \<longrightarrow>
      OCR2A (ISR s) = Some (lastSample s) \<and> lastSample (ISR s) = lastSample s - 1 \<and>
      OCR2A_writes (ISR s) = OCR2A_writes s @ [Some (lastSample s)])
    \<and> OCR2A_writes (ticks (unat (lastSample s) + k) s) =
        OCR2A_writes s @ map (\<lambda>i. Some (lastSample s - word_of_nat i)) [0..<unat (lastSample s)]
    \<and> Some 0 \<notin> set (map (\<lambda>i. Some (lastSample s - word_of_nat i)) [0..<unat (lastSample s)])
    \<and> ticks (Suc (unat (lastSample s))) s = stopPlayback (ticks (unat (lastSample s)) s)"
proof -
  let ?n = "unat (lastSample s)"
  let ?t = "ticks ?n s"
  have step: "0 < lastSample s \<longrightarrow>
      OCR2A (ISR s) = Some (lastSample s) \<and> lastSample (ISR s) = lastSample s - 1 \<and>
      OCR2A_writes (ISR s) = OCR2A_writes s @ [Some (lastSample s)]"
    using assms by (simp add: ISR_fade word_greater_zero_iff)
  have t: "\<not> playing ?t" "lastSample ?t = 0"
    "OCR2A_writes ?t = OCR2A_writes s @ map (\<lambda>i. Some (lastSample s - word_of_nat i)) [0..<?n]"
    using ticks_fade [OF assms, of ?n] assms by simp_all
  have "OCR2A_writes (ticks k ?t) = OCR2A_writes ?t"
  proof (cases k)
    case 0
    then show ?thesis by simp
  next
    case (Suc j)
    show ?thesis unfolding Suc ticks_stopped [OF t(1,2)] by simp
  qed
  then have run: "OCR2A_writes (ticks (?n + k) s) =
      OCR2A_writes s @ map (\<lambda>i. Some (lastSample s - word_of_nat i)) [0..<?n]"
    by (simp add: ticks_add t(3))
  have no0: "Some 0 \<notin> set (map (\<lambda>i. Some (lastSample s - word_of_nat i)) [0..<?n])"
    using word_sub_of_nat_nonzero [of _ "lastSample s"] by auto
  have "ticks (Suc ?n) s = stopPlayback ?t"
    using t(1,2) by (simp add: ISR_stop)
  with step run no0 show ?thesis by blast
qed

text \<open>
  The stream is the single sample 10. \<open>startPlayback\<close> writes 10, the first tick finds
  the file empty (and assigns the indeterminate value of \<open>nextByte\<close>), ten fade-out ticks
  write 10, 9, ..., 1, and the next tick is \<open>stopPlayback\<close>.
\<close>

theorem fade_writes_before_decrement_witness:
  "\<not> playing (ticks 1 (startPlayback 16000000 (reset_state [10])))
   \<and> 0 < lastSample (ticks 1 (startPlayback 16000000 (reset_state [10])))
   \<and> OCR2A (ISR (ticks 1 (startPlayback 16000000 (reset_state [10])))) = Some 10
   \<and> lastSample (ISR (ticks 1 (startPlayback 16000000 (reset_state [10])))) = 9
   \<and> OCR2A_writes (ticks 10 (ticks 1 (startPlayback 16000000 (reset_state [10])))) =
       [Some 10, None, Some 10, Some 9, Some 8, Some 7, Some 6, Some 5, Some 4, Some 3,
        Some 2, Some 1]
   \<and> ticks (Suc 10) (ticks 1 (startPlayback 16000000 (reset_state [10]))) =
       stopPlayback (ticks 10 (ticks 1 (startPlayback 16000000 (reset_state [10]))))"
proof -
  let ?s = "ticks 1 (startPlayback 16000000 (reset_state [10]))"
  have h: "\<not> playing ?s" and v: "lastSample ?s = 10"
    and w: "OCR2A_writes ?s = [Some 10, None]"
    unfolding ten_exhausted by simp_all
  have n: "unat (lastSample ?s) = 10" by (simp only: v) simp
  have u: "[0..<10] = [0, 1, 2, 3, 4, 5, 6, 7, 8, 9::nat]"
    by (simp add: upt_rec)
  note fade_writes_before_decrement [OF h, of 0, unfolded n w, unfolded v u]
  then show ?thesis using h v by simp
qed

text \<open>
  C1 as stated fails on that stream: the first fade-out tick writes 10 and leaves
  \<open>lastSample\<close> at 9, so the value written is not the decremented one, and the duty
  sequence up to Idle ends with 1, not with 0.
\<close>

theorem single_sample_10_counterexample:
  "OCR2A (ticks 2 (startPlayback 16000000 (reset_state [10]))) = Some 10
   \<and> lastSample (ticks 2 (startPlayback 16000000 (reset_state [10]))) = 9
   \<and> OCR2A_writes (ticks 12 (startPlayback 16000000 (reset_state [10]))) =
       [Some 10, None, Some 10, Some 9, Some 8, Some 7, Some 6, Some 5, Some 4, Some 3,
        Some 2, Some 1]
   \<and> Some 0 \<notin> set (OCR2A_writes (ticks 12 (startPlayback 16000000 (reset_state [10]))))
   \<and> PlaybackState_after 11 (startPlayback 16000000 (reset_state [10])) = FadingOut
   \<and> PlaybackState_after 12 (startPlayback 16000000 (reset_state [10])) = Idle"
  unfolding start_reset_Cons by (simp add: run_eval)

text \<open>
  C2, as the code has it. The flag \<open>playing\<close> that \<open>loop\<close> polls is set when
  \<open>startPlayback\<close> returns and stays set for as many ticks as the file then has bytes;
  the next tick finds the file empty and clears it. So the flag is set exactly while the
  playback state is Playing, and clear through all of FadingOut, which begins with that
  tick and lasts until \<open>lastSample\<close> has come down to 0, and in Idle.
\<close>

theorem playing_flag_clear_in_fade:
  "playing (ticks k (startPlayback f s)) = (k \<le> length (tl (myFile s)))
   \<and> (PlaybackState_after k (startPlayback f s) = Playing) = (k \<le> length (tl (myFile s)))
   \<and> (PlaybackState_after k (startPlayback f s) = FadingOut) =
       (length (tl (myFile s)) < k \<and>
        k \<le> Suc (length (tl (myFile s)))
              + unat (if myFile s = [] then lastSample s else last (myFile s)))
   \<and> PlaybackState_after (Suc (length (tl (myFile s)))) (startPlayback f s) = FadingOut
   \<and> \<not> playing (ticks (Suc (length (tl (myFile s)))) (startPlayback f s))"
proof -
  have p: "playing (startPlayback f s)" by (rule startPlayback_globals)
  show ?thesis
    unfolding PlaybackState_run [OF p] playing_ticks_iff [OF p] startPlayback_final
    by (simp add: startPlayback_globals)
qed

text \<open>
  C2 as stated fails on the stream of the single sample 10: after the first tick and up
  to the eleventh the playback state is FadingOut and \<open>playing\<close> is clear.
\<close>

theorem playing_flag_counterexample:
  "PlaybackState_after 1 (startPlayback 16000000 (reset_state [10])) = FadingOut
   \<and> \<not> playing (ticks 1 (startPlayback 16000000 (reset_state [10])))
   \<and> PlaybackState_after 11 (startPlayback 16000000 (reset_state [10])) = FadingOut
   \<and> \<not> playing (ticks 11 (startPlayback 16000000 (reset_state [10])))"
  unfolding start_reset_Cons by (simp add: run_eval)

text \<open>
  C3, as the code has it. The tick that finds the file empty while \<open>playing\<close> is set
  clears \<open>playing\<close> on that same tick, which takes the playback state from Playing to
  FadingOut, and leaves \<open>lastSample\<close> as it is. The handler still executes its assignment
  \<open>_OCR_ = nextByte()\<close> on that tick, with the value of that call. The first decay write
  is made by the following tick.
\<close>

theorem exhaustion_tick:
  assumes "playing s" and "myFile s = []"
  shows "PlaybackState_after 0 s = Playing \<and> PlaybackState_after 1 s = FadingOut
    \<and> \<not> playing (ISR s) \<and> lastSample (ISR s) = lastSample s
    \<and> OCR2A_writes (ISR s) = OCR2A_writes s @ [fst (nextByte s)]
    \<and> (0 < lastSample s \<longrightarrow>
         OCR2A_writes (ISR (ISR s)) = OCR2A_writes (ISR s) @ [Some (lastSample s)])"
proof -
  have e: "ISR s = s\<lparr>playing := False, OCR2A := None,
      OCR2A_writes := OCR2A_writes s @ [None]\<rparr>"
    using assms by (rule ISR_exhausted)
  have "fst (nextByte s) = None" using assms by (simp add: nextByte_def)
  moreover have "0 < lastSample s \<longrightarrow>
      OCR2A_writes (ISR (ISR s)) = OCR2A_writes (ISR s) @ [Some (lastSample s)]"
    unfolding e by (simp add: ISR_fade word_greater_zero_iff)
  moreover have "PlaybackState_after 0 s = Playing \<and> PlaybackState_after 1 s = FadingOut"
    using assms by (simp add: PlaybackState_run)
  ultimately show ?thesis unfolding e by simp
qed

text \<open>
  The stream is the single sample 10: the machine \<open>startPlayback\<close> returns has
  \<open>playing\<close> set and an empty file, so its first tick is the tick in question.
\<close>

theorem exhaustion_tick_witness:
  "playing (startPlayback 16000000 (reset_state [10]))
   \<and> myFile (startPlayback 16000000 (reset_state [10])) = []
   \<and> PlaybackState_after 1 (startPlayback 16000000 (reset_state [10])) = FadingOut
   \<and> \<not> playing (ISR (startPlayback 16000000 (reset_state [10])))
   \<and> lastSample (ISR (startPlayback 16000000 (reset_state [10]))) = 10
   \<and> length (OCR2A_writes (ISR (startPlayback 16000000 (reset_state [10])))) = 2
   \<and> OCR2A_writes (ISR (ISR (startPlayback 16000000 (reset_state [10])))) =
       OCR2A_writes (ISR (startPlayback 16000000 (reset_state [10]))) @ [Some 10]"
proof -
  let ?s = "startPlayback 16000000 (reset_state [10])"
  have h: "playing ?s" "myFile ?s = []" and v: "lastSample ?s = 10"
    and w: "OCR2A_writes ?s = [Some 10]"
    unfolding start_reset_Cons by simp_all
  from exhaustion_tick [OF h] h show ?thesis by (simp add: v w)
qed

text \<open>
  C3 as stated fails on the stream of the single sample 10: the duty register has been
  assigned once when \<open>startPlayback\<close> returns and twice after the tick that finds the
  file empty.
\<close>

theorem exhaustion_tick_counterexample:
  "playing (startPlayback 16000000 (reset_state [10]))
   \<and> myFile (startPlayback 16000000 (reset_state [10])) = []
   \<and> OCR2A_writes (startPlayback 16000000 (reset_state [10])) = [Some 10]
   \<and> OCR2A_writes (ISR (startPlayback 16000000 (reset_state [10]))) = [Some 10, None]"
  unfolding start_reset_Cons by (simp add: ISR_def nextByte_def set_OCR_def)

text \<open>
  C4, as the code has it. \<open>startPlayback\<close> ends with \<open>playing = true\<close>, so the flag is
  set when it returns whether or not the file had a byte. When the file is empty before
  \<open>startPlayback\<close> and \<open>lastSample\<close> is 0, the playback state is Playing at the return,
  FadingOut after the first tick and Idle after the second and from then on;
  \<open>lastSample\<close> stays 0, and no tick after the first assigns the duty register, so there
  is no decay write.
\<close>

theorem start_sets_playing:
  "playing (startPlayback f s)
   \<and> (myFile s = [] \<and> lastSample s = 0 \<longrightarrow>
        PlaybackState_after 0 (startPlayback f s) = Playing
        \<and> PlaybackState_after 1 (startPlayback f s) = FadingOut
        \<and> PlaybackState_after (Suc (Suc k)) (startPlayback f s) = Idle
        \<and> lastSample (ticks k (startPlayback f s)) = 0
        \<and> OCR2A_writes (ticks (Suc k) (startPlayback f s))
            = OCR2A_writes (ticks 1 (startPlayback f s)))"
proof -
  let ?s = "startPlayback f s"
  have p: "playing ?s" by (rule startPlayback_globals)
  have rest: "PlaybackState_after 0 ?s = Playing
        \<and> PlaybackState_after 1 ?s = FadingOut
        \<and> PlaybackState_after (Suc (Suc k)) ?s = Idle
        \<and> lastSample (ticks k ?s) = 0
        \<and> OCR2A_writes (ticks (Suc k) ?s) = OCR2A_writes (ticks 1 ?s)"
    if a: "myFile s = []" "lastSample s = 0"
  proof -
    have f: "myFile ?s = []" "lastSample ?s = 0"
      using a by (simp_all add: startPlayback_globals)
    have e: "\<not> playing (ISR ?s)" "lastSample (ISR ?s) = 0"
      using p f by (simp_all add: ISR_exhausted)
    have k1: "ticks (Suc j) ?s = ticks j (ISR ?s)" for j
      using ticks_add [of 1 j ?s] by simp
    have "lastSample (ticks k ?s) = 0"
    proof (cases k)
      case 0
      then show ?thesis using f by simp
    next
      case (Suc j)
      show ?thesis unfolding Suc k1 using lastSample_fade_run [OF e(1), of j] e(2) by simp
    qed
    moreover have "OCR2A_writes (ticks (Suc k) ?s) = OCR2A_writes (ticks 1 ?s)"
    proof (cases k)
      case 0
      then show ?thesis by simp
    next
      case (Suc j)
      show ?thesis unfolding Suc k1 [of "Suc j"] ticks_stopped [OF e] by simp
    qed
    moreover have "PlaybackState_after 0 ?s = Playing" "PlaybackState_after 1 ?s = FadingOut"
      "PlaybackState_after (Suc (Suc k)) ?s = Idle"
      using f by (simp_all add: PlaybackState_run [OF p])
    ultimately show ?thesis by simp
  qed
  with p show ?thesis by blast
qed

text \<open>
  The example machine with an empty file.
\<close>

theorem start_sets_playing_witness:
  "myFile (reset_state []) = [] \<and> lastSample (reset_state []) = 0
   \<and> playing (startPlayback 16000000 (reset_state []))
   \<and> PlaybackState_after 0 (startPlayback 16000000 (reset_state [])) = Playing
   \<and> PlaybackState_after 1 (startPlayback 16000000 (reset_state [])) = FadingOut
   \<and> PlaybackState_after (Suc (Suc 0)) (startPlayback 16000000 (reset_state [])) = Idle
   \<and> lastSample (ticks 0 (startPlayback 16000000 (reset_state []))) = 0
   \<and> OCR2A_writes (ticks (Suc 0) (startPlayback 16000000 (reset_state [])))
       = OCR2A_writes (ticks 1 (startPlayback 16000000 (reset_state [])))"
proof -
  have h: "myFile (reset_state []) = [] \<and> lastSample (reset_state []) = 0"
    by (simp add: reset_state_def)
  from start_sets_playing [of 16000000 "reset_state []" 0] h show ?thesis by blast
qed

text \<open>
  C4 as stated fails on the empty file: \<open>nextByte\<close> yields no sample during
  \<open>startPlayback\<close>, and \<open>playing\<close> is set at its return.
\<close>

theorem start_sets_playing_counterexample:
  "myFile (reset_state []) = []
   \<and> fst (nextByte (reset_state [])) = None
   \<and> OCR2A_writes (startPlayback 16000000 (reset_state [])) = [None]
   \<and> playing (startPlayback 16000000 (reset_state []))"
  unfolding start_reset_Nil by (simp add: reset_state_def nextByte_def)

text \<open>
  C5. Fade-out starts in a machine with \<open>playing\<close> clear, whatever \<open>lastSample\<close> holds
  (0 to 255). From there \<open>lastSample\<close> never goes up from one tick to the next, it is 0
  after as many ticks as its starting value, which is at most 255, and it stays 0: in
  particular it is 0 after 255 ticks.
\<close>

theorem fade_monotone_to_zero:
  assumes "\<not> playing s"
  shows "lastSample (ticks (Suc k) s) \<le> lastSample (ticks k s)
    \<and> unat (lastSample s) \<le> 255
    \<and> lastSample (ticks (unat (lastSample s) + k) s) = 0
    \<and> lastSample (ticks (255 + k) s) = 0"
proof -
  have le: "unat (lastSample s) \<le> 255"
    using unsigned_less [of "lastSample s", where 'a = nat] by simp
  have mono: "lastSample (ticks (Suc k) s) \<le> lastSample (ticks k s)"
    using not_playing_ticks [OF assms, of k] by (simp add: lastSample_ISR_le)
  have zero: "lastSample (ticks (unat (lastSample s) + j) s) = 0" for j
    by (simp add: lastSample_fade_run [OF assms])
  have "255 + k = unat (lastSample s) + (255 - unat (lastSample s) + k)"
    using le by simp
  then have "lastSample (ticks (255 + k) s) = 0"
    using zero [of "255 - unat (lastSample s) + k"] by simp
  with mono zero le show ?thesis by simp
qed

text \<open>
  The file holds the single sample 10. After the tick that finds it empty \<open>playing\<close> is
  clear and \<open>lastSample\<close> is 10; ten ticks later it is 0.
\<close>

theorem fade_monotone_to_zero_witness:
  "\<not> playing (ticks 1 (startPlayback 16000000 (reset_state [10])))
   \<and> lastSample (ticks 1 (startPlayback 16000000 (reset_state [10]))) = 10
   \<and> lastSample (ticks (Suc 3) (ticks 1 (startPlayback 16000000 (reset_state [10]))))
       \<le> lastSample (ticks 3 (ticks 1 (startPlayback 16000000 (reset_state [10]))))
   \<and> lastSample (ticks 10 (ticks 1 (startPlayback 16000000 (reset_state [10])))) = 0
   \<and> lastSample (ticks 255 (ticks 1 (startPlayback 16000000 (reset_state [10])))) = 0"
proof -
  let ?s = "ticks 1 (startPlayback 16000000 (reset_state [10]))"
  have h: "\<not> playing ?s" and v: "lastSample ?s = 10"
    unfolding ten_exhausted by simp_all
  have "unat (lastSample ?s) = 10" by (simp only: v) simp
  then have "lastSample (ticks 10 ?s) = 0"
    using fade_monotone_to_zero [OF h, of 0] by simp
  moreover have "lastSample (ticks (Suc 3) ?s) \<le> lastSample (ticks 3 ?s)"
    using fade_monotone_to_zero [OF h, of 3] by blast
  moreover have "lastSample (ticks 255 ?s) = 0"
    using fade_monotone_to_zero [OF h, of 0] by simp
  ultimately show ?thesis using h v by blast
qed

text \<open>
  C6, as the code has it. Take the machine \<open>startPlayback\<close> returns, from any registers
  and any file, and let any number of ticks pass. If the playback state is then Idle, the
  sample clock (Timer 1 and its interrupt) and the PWM timer (Timer 2) are disabled and
  the speaker pin is LOW. If it is not Idle, both are enabled. The Idle moment before
  \<open>startPlayback\<close> is left out: no statement of the sketch has touched the timers then.
\<close>

theorem idle_iff_clocks_off_after_start:
  "(PlaybackState_at f s (After_start k) = Idle \<longrightarrow>
      sample_clock_disabled (machine_at f s (After_start k)) \<and>
      pwm_timer_disabled (machine_at f s (After_start k)) \<and>
      pinLevels (machine_at f s (After_start k)) speakerPin = LOW) \<and>
   (PlaybackState_at f s (After_start k) \<noteq> Idle \<longrightarrow>
      sample_clock_enabled (machine_at f s (After_start k)) \<and>
      pwm_timer_enabled (machine_at f s (After_start k)))"
proof (cases "stopped_before k (startPlayback f s)")
  case True
  let ?t = "ticks k (startPlayback f s)"
  have inv: "\<not> playing ?t" "stopPlayback ?t = ?t"
    using stopped_before_inv [OF True] by simp_all
  have idle: "PlaybackState_after k (startPlayback f s) = Idle"
    using True inv by (simp add: PlaybackState_after_def)
  have hi: "cs_high_clear ?t"
    by (rule cs_high_clear_ticks) (rule startPlayback_regs)
  have "\<not> bit (TIMSK1 ?t) OCIE1A" "\<not> bit (TCCR1B ?t) CS10" "\<not> bit (TCCR2B ?t) CS10"
    "pinLevels ?t speakerPin = LOW"
    using stopPlayback_regs [of ?t] unfolding inv by simp_all
  with hi idle show ?thesis
    by (simp add: sample_clock_disabled_def pwm_timer_disabled_def clock_selected_def
        cs_high_clear_def)
next
  case False
  let ?t = "ticks k (startPlayback f s)"
  have "PlaybackState_after k (startPlayback f s) \<noteq> Idle"
    using False by (simp add: PlaybackState_after_def)
  moreover have "bit (TIMSK1 ?t) OCIE1A" "bit (TCCR1B ?t) CS10" "bit (TCCR2B ?t) CS10"
    using not_stopped_regs [OF False] startPlayback_regs [of f s] by simp_all
  ultimately show ?thesis
    by (simp add: sample_clock_enabled_def pwm_timer_enabled_def clock_selected_def)
qed

text \<open>
  With the single sample 10, from the machine whose timers were counting for PWM: Playing
  at the return of \<open>startPlayback\<close>, still FadingOut after 11 ticks, Idle after 12.
\<close>

theorem idle_iff_clocks_off_after_start_witness:
  "PlaybackState_at 16000000 (pwm_ready_state [10]) (After_start 12) = Idle
   \<and> sample_clock_disabled (machine_at 16000000 (pwm_ready_state [10]) (After_start 12))
   \<and> pwm_timer_disabled (machine_at 16000000 (pwm_ready_state [10]) (After_start 12))
   \<and> pinLevels (machine_at 16000000 (pwm_ready_state [10]) (After_start 12)) speakerPin
       = LOW
   \<and> PlaybackState_at 16000000 (pwm_ready_state [10]) (After_start 11) = FadingOut
   \<and> sample_clock_enabled (machine_at 16000000 (pwm_ready_state [10]) (After_start 11))
   \<and> pwm_timer_enabled (machine_at 16000000 (pwm_ready_state [10]) (After_start 11))
   \<and> PlaybackState_at 16000000 (pwm_ready_state [10]) (After_start 0) = Playing
   \<and> sample_clock_enabled (machine_at 16000000 (pwm_ready_state [10]) (After_start 0))
   \<and> pwm_timer_enabled (machine_at 16000000 (pwm_ready_state [10]) (After_start 0))"
proof -
  let ?s = "pwm_ready_state [10]"
  have a: "PlaybackState_at 16000000 ?s (After_start 12) = Idle"
    unfolding PlaybackState_at.simps start_pwm_ready_Cons by (simp add: run_eval)
  have b: "PlaybackState_at 16000000 ?s (After_start 11) = FadingOut"
    unfolding PlaybackState_at.simps start_pwm_ready_Cons by (simp add: run_eval)
  have c: "PlaybackState_at 16000000 ?s (After_start 0) = Playing"
    unfolding PlaybackState_at.simps start_pwm_ready_Cons by (simp add: run_eval)
  have d: "PlaybackState_at 16000000 ?s (After_start 11) \<noteq> Idle"
    "PlaybackState_at 16000000 ?s (After_start 0) \<noteq> Idle"
    unfolding b c by simp_all
  show ?thesis
    using a b c d idle_iff_clocks_off_after_start [of 16000000 ?s 12]
      idle_iff_clocks_off_after_start [of 16000000 ?s 11]
      idle_iff_clocks_off_after_start [of 16000000 ?s 0]
    by blast
qed

text \<open>
  C6 as stated fails at the moment before \<open>startPlayback\<close>: the playback state is Idle,
  Timer 1 and Timer 2 are counting as \<open>setup\<close> found them, so neither clock is disabled,
  and the PWM timer is enabled.
\<close>

theorem idle_before_start_counterexample:
  "PlaybackState_at 16000000 (pwm_ready_state [10]) Before_start = Idle
   \<and> \<not> playing (machine_at 16000000 (pwm_ready_state [10]) Before_start)
   \<and> lastSample (machine_at 16000000 (pwm_ready_state [10]) Before_start) = 0
   \<and> \<not> sample_clock_disabled (machine_at 16000000 (pwm_ready_state [10]) Before_start)
   \<and> \<not> pwm_timer_disabled (machine_at 16000000 (pwm_ready_state [10]) Before_start)
   \<and> pwm_timer_enabled (machine_at 16000000 (pwm_ready_state [10]) Before_start)"
  by (simp add: pwm_ready_state_def sample_clock_disabled_def pwm_timer_disabled_def
      pwm_timer_enabled_def clock_selected_def bit_names)

text \<open>
  C7. \<open>stopPlayback\<close> applied twice gives the state it gives applied once, registers,
  interrupt mask and pins included. So a tick that arrives when the playback state is
  already Idle, which the handler answers with \<open>stopPlayback\<close>, changes nothing.
\<close>

theorem stopPlayback_idempotent:
  "stopPlayback (stopPlayback s) = stopPlayback s
   \<and> (PlaybackState_after n s = Idle \<longrightarrow> ticks (Suc n) s = ticks n s)"
proof -
  have "ticks (Suc n) s = ticks n s" if "PlaybackState_after n s = Idle"
  proof -
    from that have "stopped_before n s"
      by (simp add: PlaybackState_after_def split: if_splits)
    from stopped_before_inv [OF this] show ?thesis by (simp add: ISR_stop)
  qed
  then show ?thesis by (simp add: stopPlayback_twice)
qed

text \<open>With an empty file the machine is Idle after two ticks; the third changes nothing.\<close>

theorem stopPlayback_idempotent_witness:
  "PlaybackState_after 2 (startPlayback 16000000 (reset_state [])) = Idle
   \<and> ticks (Suc 2) (startPlayback 16000000 (reset_state []))
     = ticks 2 (startPlayback 16000000 (reset_state []))
   \<and> stopPlayback (stopPlayback (startPlayback 16000000 (reset_state [])))
     = stopPlayback (startPlayback 16000000 (reset_state []))"
proof -
  let ?s = "startPlayback 16000000 (reset_state [])"
  have a: "PlaybackState_after 2 ?s = Idle"
    unfolding start_reset_Nil by (simp add: run_eval)
  show ?thesis
    using a stopPlayback_idempotent [of ?s 2] by blast
qed

text \<open>
  C8, as the code has it. For a file of \<open>N \<ge> 1\<close> bytes, \<open>startPlayback\<close> itself fetches
  and writes the first sample. Of the ticks that follow, exactly \<open>N\<close> are handled in the
  Playing branch: the first \<open>N - 1\<close> fetch and write the remaining samples, and the
  \<open>N\<close>th finds the file empty and makes the transition to FadingOut itself.
\<close>

theorem fetch_ticks_of_stream:
  assumes "myFile s \<noteq> []"
  shows "OCR2A_writes (startPlayback f s) = OCR2A_writes s @ [Some (hd (myFile s))]
    \<and> fetch_ticks k (startPlayback f s) = min k (length (myFile s) - 1)
    \<and> playing_ticks k (startPlayback f s) = min k (length (myFile s))
    \<and> OCR2A_writes (ticks (length (myFile s) - 1) (startPlayback f s))
        = OCR2A_writes s @ map Some (myFile s)
    \<and> PlaybackState_after (length (myFile s) - 1) (startPlayback f s) = Playing
    \<and> PlaybackState_after (length (myFile s)) (startPlayback f s) = FadingOut"
proof -
  let ?s = "startPlayback f s"
  from assms obtain b rest where m: "myFile s = b # rest" by (cases "myFile s") auto
  have p: "playing ?s" by (rule startPlayback_globals)
  have f: "myFile ?s = rest" "OCR2A_writes ?s = OCR2A_writes s @ [Some b]"
    by (simp_all add: startPlayback_globals m)
  have "OCR2A_writes (ticks (length rest) ?s) = OCR2A_writes s @ map Some (b # rest)"
    using ticks_playing [OF p, of "length rest"] f by simp
  moreover have "fetch_ticks k ?s = min k (length rest)"
    using fetch_ticks_run [OF p, of k] f by simp
  moreover have "playing_ticks k ?s = min k (Suc (length rest))"
    using playing_ticks_run [OF p, of k] f by simp
  moreover have "PlaybackState_after (length rest) ?s = Playing"
    "PlaybackState_after (Suc (length rest)) ?s = FadingOut"
    using f by (simp_all add: PlaybackState_run [OF p])
  ultimately show ?thesis using f by (simp add: m)
qed

text \<open>
  The stream 10, 20, 30: two ticks fetch a sample, three are handled in the Playing
  branch, and the playback state is FadingOut after the third.
\<close>

theorem fetch_ticks_of_stream_witness:
  "myFile (reset_state [10, 20, 30]) \<noteq> []
   \<and> OCR2A_writes (startPlayback 16000000 (reset_state [10, 20, 30])) = [Some 10]
   \<and> fetch_ticks 7 (startPlayback 16000000 (reset_state [10, 20, 30])) = 2
   \<and> playing_ticks 7 (startPlayback 16000000 (reset_state [10, 20, 30])) = 3
   \<and> OCR2A_writes (ticks 2 (startPlayback 16000000 (reset_state [10, 20, 30])))
       = [Some 10, Some 20, Some 30]
   \<and> PlaybackState_after 2 (startPlayback 16000000 (reset_state [10, 20, 30])) = Playing
   \<and> PlaybackState_after 3 (startPlayback 16000000 (reset_state [10, 20, 30])) = FadingOut"
proof -
  have h: "myFile (reset_state [10, 20, 30]) \<noteq> []"
    and m: "myFile (reset_state [10, 20, 30]) = [10, 20, 30]"
    and w: "OCR2A_writes (reset_state [10, 20, 30]) = []"
    by (simp_all add: reset_state_def)
  from fetch_ticks_of_stream [OF h, of 16000000 7, unfolded m w] h
  show ?thesis by (simp add: numeral_2_eq_2 numeral_3_eq_3)
qed

text \<open>
  C8 as stated fails on the stream of the single sample 10: no tick fetches a sample, the
  only tick handled in the Playing branch is the one that makes the transition.
\<close>

theorem fetch_ticks_counterexample:
  "length (myFile (reset_state [10])) = 1
   \<and> fetch_ticks 12 (startPlayback 16000000 (reset_state [10])) = 0
   \<and> playing_ticks 12 (startPlayback 16000000 (reset_state [10])) = 1
   \<and> playing (startPlayback 16000000 (reset_state [10]))
   \<and> myFile (startPlayback 16000000 (reset_state [10])) = []
   \<and> PlaybackState_after 1 (startPlayback 16000000 (reset_state [10])) = FadingOut"
  unfolding start_reset_Cons
  by (simp add: run_eval reset_state_def)

text \<open>
  C9. \<open>startPlayback\<close> stores the integer quotient of \<open>F_CPU\<close> by \<open>SAMPLE_RATE\<close> in \<open>OCR1A\<close>,
  exactly as long as the quotient fits the 16 bits of the register; with a clock of
  16 MHz and the sample rate of 8000 Hz the register holds 2000.
\<close>

theorem sample_clock_compare_value:
  "(F_CPU div SAMPLE_RATE < 2 ^ 16 \<longrightarrow>
      unat (OCR1A (startPlayback F_CPU s)) = F_CPU div SAMPLE_RATE)
   \<and> OCR1A (startPlayback 16000000 s) = 2000"
  by (simp add: startPlayback_globals SAMPLE_RATE_def unat_of_nat)

text \<open>
  The clock of the Mega 2560, 16 MHz.
\<close>

theorem sample_clock_compare_value_witness:
  "16000000 div SAMPLE_RATE < (2::nat) ^ 16
   \<and> unat (OCR1A (startPlayback 16000000 (reset_state [10]))) = 2000"
  using sample_clock_compare_value [of 16000000 "reset_state [10]"]
  by (simp add: SAMPLE_RATE_def)

text \<open>
  C10. On an empty file \<open>nextByte\<close> clears \<open>playing\<close> and reaches its closing brace
  without a \<open>return\<close>: the call has no defined value, and both callers assign it to the
  duty register, \<open>startPlayback\<close> when the file is empty from the start and the handler on
  the tick that finds it empty.
\<close>

theorem nextByte_exhausted_no_value:
  "fst (nextByte (reset_state [])) = None
   \<and> OCR2A (startPlayback 16000000 (reset_state [])) = None
   \<and> OCR2A (ISR (startPlayback 16000000 (reset_state [10]))) = None"
  unfolding start_reset_Cons start_reset_Nil
  by (simp add: reset_state_def ISR_def nextByte_def set_OCR_def)

end
